theory Spec2Isabelle
  imports Main
begin

section \<open>The job search page: filter state, query synchroniser, paginated fetcher\<close>

text \<open>
  A shallow embedding of \<^verbatim>\<open>src/components/pages/JobSearchPage.tsx\<close>. The component's
  React state is a record; every handler, the filter-watching effect and the two halves
  of each asynchronous function (the part before \<^verbatim>\<open>await wpService.getJobs\<close> and the
  part after it) are functions from state to state. The calls of \<^verbatim>\<open>getJobs\<close> that have
  not settled are kept beside the React state, together with the calls made on the
  router.

  A function of the component is a closure of the render that created it: the state
  variables it reads are constants of that render, while its setters act on the state
  as it is when they run. \<^verbatim>\<open>loadMoreJobs\<close> is handed to the hook
  \<^verbatim>\<open>useInfiniteScroll\<close>, which is not part of the sources at hand and may call it at
  any time, so the render it belongs to is an argument of its own. The filter effect
  and the search it starts run right after the render they belong to, on the state
  that render shows.

  The components and the hook that the page imports (\<^verbatim>\<open>JobSidebar\<close>,
  \<^verbatim>\<open>SearchableSelect\<close>, \<^verbatim>\<open>useInfiniteScroll\<close>) and the service \<^verbatim>\<open>wpService\<close> appear only
  through the callbacks the page hands to them and the responses it receives. Strings
  are lists of 8-bit characters: a JavaScript string is read as the bytes of its UTF-8
  encoding. Page numbers and counts are integers; JavaScript computes
  \<^verbatim>\<open>currentPage + 1\<close> on doubles, which agrees with the integer sum for page numbers of
  magnitude below \<open>2 ^ 53\<close>.
\<close>

subsection \<open>Platform functions: \<^verbatim>\<open>JSON.stringify\<close> and \<^verbatim>\<open>URLSearchParams\<close>\<close>

definition dquote :: char where
  "dquote = CHR 0x22"

definition backslash :: char where
  "backslash = CHR 0x5C"

definition lowerHex :: "nat \<Rightarrow> char" where
  "lowerHex n = (if n mod 16 < 10 then char_of (48 + n mod 16) else char_of (87 + n mod 16))"

definition upperHex :: "nat \<Rightarrow> char" where
  "upperHex n = (if n mod 16 < 10 then char_of (48 + n mod 16) else char_of (55 + n mod 16))"

text \<open>
  \<^verbatim>\<open>QuoteJSONString\<close> of ECMAScript: the two-character escapes for backspace, tab, line
  feed, form feed, carriage return, the double quote and the backslash; \<^verbatim>\<open>\u00xx\<close> with
  lower-case digits for the other control characters; every other character as it is.
\<close>

definition jsonEscapeChar :: "char \<Rightarrow> string" where
  "jsonEscapeChar c =
     (if c = CHR 0x08 then [backslash, CHR ''b'']
      else if c = CHR 0x09 then [backslash, CHR ''t'']
      else if c = CHR 0x0A then [backslash, CHR ''n'']
      else if c = CHR 0x0C then [backslash, CHR ''f'']
      else if c = CHR 0x0D then [backslash, CHR ''r'']
      else if c = dquote then [backslash, dquote]
      else if c = backslash then [backslash, backslash]
      else if (of_char c :: nat) < 32
        then [backslash, CHR ''u'', CHR ''0'', CHR ''0'',
              lowerHex (of_char c div 16), lowerHex (of_char c)]
      else [c])"

definition quoteJSONString :: "string \<Rightarrow> string" where
  "quoteJSONString s = dquote # concat (map jsonEscapeChar s) @ [dquote]"

text \<open>\<^verbatim>\<open>JSON.stringify\<close> of an array of strings: the quoted elements, comma separated.\<close>

fun serializeJSONArray :: "string list \<Rightarrow> string" where
  "serializeJSONArray [] = ''[]''"
| "serializeJSONArray (x # xs) =
     ''['' @ quoteJSONString x @ concat (map (\<lambda>y. '','' @ quoteJSONString y) xs) @ '']''"

text \<open>
  \<^verbatim>\<open>JSON.stringify\<close> of an object whose values are arrays of strings. The object is the
  list of its own properties in the order in which JavaScript enumerates them.
\<close>

definition jsonMember :: "string \<times> string list \<Rightarrow> string" where
  "jsonMember m = quoteJSONString (fst m) @ '':'' @ serializeJSONArray (snd m)"

fun serializeJSONObject :: "(string \<times> string list) list \<Rightarrow> string" where
  "serializeJSONObject [] = ''{}''"
| "serializeJSONObject (m # ms) =
     ''{'' @ jsonMember m @ concat (map (\<lambda>n. '','' @ jsonMember n) ms) @ ''}''"

text \<open>
  The \<^verbatim>\<open>application/x-www-form-urlencoded\<close> serialiser behind
  \<^verbatim>\<open>URLSearchParams.toString()\<close>: a space becomes \<^verbatim>\<open>+\<close>, the ASCII letters and digits and
  \<^verbatim>\<open>* - . _\<close> stay, every other byte is percent-encoded with upper-case digits.
\<close>

definition urlencodedKeep :: "char \<Rightarrow> bool" where
  "urlencodedKeep c =
     (let n = (of_char c :: nat) in
      n = 0x2A \<or> n = 0x2D \<or> n = 0x2E \<or> (0x30 \<le> n \<and> n \<le> 0x39) \<or>
      (0x41 \<le> n \<and> n \<le> 0x5A) \<or> n = 0x5F \<or> (0x61 \<le> n \<and> n \<le> 0x7A))"

definition urlencodedByte :: "char \<Rightarrow> string" where
  "urlencodedByte c =
     (if c = CHR '' '' then ''+''
      else if urlencodedKeep c then [c]
      else [CHR ''%'', upperHex (of_char c div 16), upperHex (of_char c)])"

definition urlencodedString :: "string \<Rightarrow> string" where
  "urlencodedString s = concat (map urlencodedByte s)"

type_synonym url_search_params = "(string \<times> string) list"

text \<open>\<^verbatim>\<open>params.set(name, value)\<close>: the first pair of that name takes the value and the
  later ones go; a new name is appended.\<close>

fun params_set :: "string \<Rightarrow> string \<Rightarrow> url_search_params \<Rightarrow> url_search_params" where
  "params_set n v [] = [(n, v)]"
| "params_set n v ((k, w) # ps) =
     (if k = n then (n, v) # filter (\<lambda>p. fst p \<noteq> n) ps else (k, w) # params_set n v ps)"

fun params_toString :: "url_search_params \<Rightarrow> string" where
  "params_toString [] = ''''"
| "params_toString [(k, v)] = urlencodedString k @ ''='' @ urlencodedString v"
| "params_toString ((k, v) # p # ps) =
     urlencodedString k @ ''='' @ urlencodedString v @ ''&'' @ params_toString (p # ps)"


subsection \<open>Data model\<close>

text \<open>A job is opaque to the page beyond being the unit that is paginated over.\<close>

datatype job = Job (job_id: nat)

text \<open>
  The object in the state variable \<^verbatim>\<open>sidebarFilters\<close>: its own properties in enumeration
  order, each a facet name with its array of selected values. The component creates it
  with the seven facet names in a fixed order, but \<^verbatim>\<open>handleSidebarFilterChange\<close> stores
  whatever object the sidebar hands over (\<^verbatim>\<open>newFilters: any\<close>), so neither the set of keys
  nor their order is fixed.
\<close>

type_synonym sidebar_filters = "(string \<times> string list) list"

text \<open>The object kept in \<^verbatim>\<open>filtersRef.current\<close>, and built as \<^verbatim>\<open>currentFilters\<close>.\<close>

record filters_snapshot =
  snap_keyword :: string
  snap_selectedProvince :: string
  snap_sidebarFilters :: sidebar_filters
  snap_sortBy :: string

text \<open>The \<^verbatim>\<open>filters\<close> argument of \<^verbatim>\<open>wpService.getJobs\<close>:
  \<^verbatim>\<open>{ search, location, sortBy, ...sidebarFilters }\<close>. The spread object is kept whole in
  \<open>facets\<close>; a property of it named \<^verbatim>\<open>search\<close>, \<^verbatim>\<open>location\<close> or \<^verbatim>\<open>sortBy\<close> would take the
  place of the field of that name in the object that is passed.\<close>

record job_filters =
  search :: string
  location :: string
  filter_sortBy :: string
  facets :: sidebar_filters

text \<open>One call \<^verbatim>\<open>wpService.getJobs(filters, page, pageSize)\<close> that has not settled yet.\<close>

record get_jobs_call =
  call_filters :: job_filters
  call_page :: int
  call_pageSize :: int

record jobs_response =
  resp_jobs :: "job list"
  resp_currentPage :: int
  resp_hasMore :: bool
  resp_totalJobs :: int

text \<open>\<^verbatim>\<open>router.replace(url, undefined, { shallow })\<close> and \<^verbatim>\<open>router.push(url)\<close>.\<close>

datatype router_call = RouterReplace string bool | RouterPush string

text \<open>The province to cities taxonomy of \<^verbatim>\<open>FilterData\<close>; the page only tests it for
  \<^verbatim>\<open>null\<close> and lists its provinces.\<close>

type_synonym filter_data = "(string \<times> string list) list"

text \<open>
  The state of the component: one field for each \<^verbatim>\<open>useState\<close> that the functions below
  read or write (\<^verbatim>\<open>loading\<close> and \<^verbatim>\<open>showMobileFilters\<close> are used by none of them), the
  object in \<^verbatim>\<open>filtersRef.current\<close>, the calls made on the router so far, and the
  \<^verbatim>\<open>getJobs\<close> calls of \<^verbatim>\<open>handleFilterSearch\<close> and of \<^verbatim>\<open>loadMoreJobs\<close> that are in
  flight, oldest first.
\<close>

record page_state =
  jobs :: "job list"
  searching :: bool
  loadingMore :: bool
  error :: "string option"
  filterData :: "filter_data option"
  currentPage :: int
  hasMore :: bool
  totalJobs :: int
  keyword :: string
  selectedProvince :: string
  sidebarFilters :: sidebar_filters
  sortBy :: string
  filtersRef :: filters_snapshot
  routerCalls :: "router_call list"
  inflightSearch :: "get_jobs_call list"
  inflightLoadMore :: "get_jobs_call list"

subsection \<open>The filter-change test of the query synchroniser\<close>

text \<open>\<^verbatim>\<open>JSON.stringify(sidebarFilters)\<close>, of whatever object the state holds.\<close>

definition stringify_sidebarFilters :: "sidebar_filters \<Rightarrow> string" where
  "stringify_sidebarFilters f = serializeJSONObject f"

text \<open>The expression \<^verbatim>\<open>filtersChanged\<close> of the effect, lines 121 to 125.\<close>

definition filtersChanged :: "filters_snapshot \<Rightarrow> filters_snapshot \<Rightarrow> bool" where
  "filtersChanged currentFilters ref =
     (snap_keyword currentFilters \<noteq> snap_keyword ref \<or>
      snap_selectedProvince currentFilters \<noteq> snap_selectedProvince ref \<or>
      snap_sortBy currentFilters \<noteq> snap_sortBy ref \<or>
      stringify_sidebarFilters (snap_sidebarFilters currentFilters) \<noteq>
        stringify_sidebarFilters (snap_sidebarFilters ref))"

subsection \<open>Initial state\<close>

text \<open>\<^verbatim>\<open>initialSearchParams\<close>: a parameter that is missing reads as the empty string
  (\<^verbatim>\<open>initialSearchParams?.search || ''\<close>).\<close>

record search_params =
  param_search :: string
  param_location :: string
  param_category :: string

record job_search_page_props =
  initialJobs :: "job list"
  initialFilterData :: "filter_data option"
  initialSearchParams :: search_params
  initialTotalJobs :: int

definition initialSidebarFilters :: "search_params \<Rightarrow> sidebar_filters" where
  "initialSidebarFilters p =
     [(''cities'', []), (''jobTypes'', []), (''experiences'', []), (''educations'', []),
      (''industries'', []), (''workPolicies'', []),
      (''categories'', (if param_category p \<noteq> '''' then [param_category p] else []))]"

definition initialState :: "job_search_page_props \<Rightarrow> page_state" where
  "initialState props =
     \<lparr>jobs = initialJobs props,
      searching = False,
      loadingMore = False,
      error = None,
      filterData = initialFilterData props,
      currentPage = 1,
      hasMore = True,
      totalJobs = initialTotalJobs props,
      keyword = param_search (initialSearchParams props),
      selectedProvince = param_location (initialSearchParams props),
      sidebarFilters = initialSidebarFilters (initialSearchParams props),
      sortBy = ''newest'',
      filtersRef =
        \<lparr>snap_keyword = '''', snap_selectedProvince = '''',
         snap_sidebarFilters = initialSidebarFilters (initialSearchParams props),
         snap_sortBy = ''newest''\<rparr>,
      routerCalls = [],
      inflightSearch = [],
      inflightLoadMore = []\<rparr>"

subsection \<open>The paginated result fetcher\<close>

definition getJobsFilters :: "page_state \<Rightarrow> job_filters" where
  "getJobsFilters s =
     \<lparr>search = keyword s, location = selectedProvince s, filter_sortBy = sortBy s,
      facets = sidebarFilters s\<rparr>"

text \<open>
  \<^verbatim>\<open>loadMoreJobs\<close> up to its \<^verbatim>\<open>await\<close>: the guard, \<^verbatim>\<open>setLoadingMore(true)\<close> and the call
  \<^verbatim>\<open>wpService.getJobs(filters, currentPage + 1, 24)\<close>. The callback is the one that the
  render \<open>render\<close> created (\<^verbatim>\<open>useCallback\<close> with every state variable it reads among its
  dependencies): \<^verbatim>\<open>loadingMore\<close>, \<^verbatim>\<open>hasMore\<close>, \<^verbatim>\<open>searching\<close>, \<^verbatim>\<open>currentPage\<close> and the filters
  are the values of that render. It is called in the state \<open>s\<close>, on which the setter
  acts and beside which the new call is in flight.
\<close>

definition loadMoreJobs :: "page_state \<Rightarrow> page_state \<Rightarrow> page_state" where
  "loadMoreJobs render s =
     (if loadingMore render \<or> \<not> hasMore render \<or> searching render then s
      else s\<lparr>loadingMore := True,
             inflightLoadMore := inflightLoadMore s @
               [\<lparr>call_filters = getJobsFilters render, call_page = currentPage render + 1,
                 call_pageSize = 24\<rparr>]\<rparr>)"

text \<open>\<^verbatim>\<open>loadMoreJobs\<close> after the \<^verbatim>\<open>await\<close>, when the call resolved with \<open>response\<close>,
  with the \<^verbatim>\<open>finally\<close> block.\<close>

definition loadMoreJobs_resolved :: "jobs_response \<Rightarrow> page_state \<Rightarrow> page_state" where
  "loadMoreJobs_resolved response s =
     (if length (resp_jobs response) > 0
      then s\<lparr>jobs := jobs s @ resp_jobs response,
             currentPage := resp_currentPage response,
             hasMore := resp_hasMore response,
             loadingMore := False\<rparr>
      else s\<lparr>hasMore := False, loadingMore := False\<rparr>)"

text \<open>\<^verbatim>\<open>loadMoreJobs\<close> after the \<^verbatim>\<open>await\<close>, when the call rejected: the \<^verbatim>\<open>catch\<close> and
  the \<^verbatim>\<open>finally\<close> block.\<close>

definition loadMoreJobs_rejected :: "page_state \<Rightarrow> page_state" where
  "loadMoreJobs_rejected s = s\<lparr>hasMore := False, loadingMore := False\<rparr>"

text \<open>The URL that \<^verbatim>\<open>handleFilterSearch\<close> hands to \<^verbatim>\<open>router.replace\<close>.\<close>

definition searchParams :: "string \<Rightarrow> string \<Rightarrow> url_search_params" where
  "searchParams kw province =
     (let params = [];
          params = (if kw \<noteq> '''' then params_set ''search'' kw params else params);
          params = (if province \<noteq> '''' then params_set ''location'' province params
                    else params)
      in params)"

definition searchUrl :: "string \<Rightarrow> string \<Rightarrow> string" where
  "searchUrl kw province = ''/lowongan-kerja/?'' @ params_toString (searchParams kw province)"

definition searchFailedMessage :: string where
  "searchFailedMessage = ''Gagal memuat data pekerjaan. Silakan coba lagi.''"

text \<open>\<^verbatim>\<open>handleFilterSearch\<close> up to its \<^verbatim>\<open>await\<close>.\<close>

definition handleFilterSearch :: "page_state \<Rightarrow> page_state" where
  "handleFilterSearch s =
     (if searching s then s
      else s\<lparr>searching := True,
             jobs := [],
             currentPage := 1,
             hasMore := True,
             error := None,
             routerCalls := routerCalls s @
               [RouterReplace (searchUrl (keyword s) (selectedProvince s)) True],
             inflightSearch := inflightSearch s @
               [\<lparr>call_filters = getJobsFilters s, call_page = 1, call_pageSize = 24\<rparr>]\<rparr>)"

text \<open>\<^verbatim>\<open>handleFilterSearch\<close> after the \<^verbatim>\<open>await\<close>: the call resolved, or it rejected.\<close>

definition handleFilterSearch_resolved :: "jobs_response \<Rightarrow> page_state \<Rightarrow> page_state" where
  "handleFilterSearch_resolved response s =
     s\<lparr>jobs := resp_jobs response,
       currentPage := resp_currentPage response,
       hasMore := resp_hasMore response,
       totalJobs := resp_totalJobs response,
       searching := False\<rparr>"

definition handleFilterSearch_rejected :: "page_state \<Rightarrow> page_state" where
  "handleFilterSearch_rejected s = s\<lparr>error := Some searchFailedMessage, searching := False\<rparr>"

subsection \<open>The query synchroniser\<close>

definition currentFilters :: "page_state \<Rightarrow> filters_snapshot" where
  "currentFilters s =
     \<lparr>snap_keyword = keyword s, snap_selectedProvince = selectedProvince s,
      snap_sidebarFilters = sidebarFilters s, snap_sortBy = sortBy s\<rparr>"

text \<open>The effect that watches the filters (lines 112 to 131). It runs after a render in
  which one of its dependencies changed.\<close>

definition filterEffect :: "page_state \<Rightarrow> page_state" where
  "filterEffect s =
     (if filtersChanged (currentFilters s) (filtersRef s) \<and> filterData s \<noteq> None
      then handleFilterSearch (s\<lparr>filtersRef := currentFilters s\<rparr>)
      else s)"

subsection \<open>The filter state store\<close>

definition clearAllFilters :: "page_state \<Rightarrow> page_state" where
  "clearAllFilters s =
     s\<lparr>keyword := '''',
       selectedProvince := '''',
       sidebarFilters :=
         [(''cities'', []), (''jobTypes'', []), (''experiences'', []), (''educations'', []),
          (''industries'', []), (''workPolicies'', []), (''categories'', [])],
       sortBy := ''newest'',
       routerCalls := routerCalls s @ [RouterReplace ''/lowongan-kerja/'' True]\<rparr>"

datatype js_error = TypeError

text \<open>\<^verbatim>\<open>prev[filterType]\<close>: \<open>None\<close> is \<^verbatim>\<open>undefined\<close>.\<close>

definition facetOf :: "string \<Rightarrow> sidebar_filters \<Rightarrow> string list option" where
  "facetOf k f = map_of f k"

text \<open>\<^verbatim>\<open>{ ...prev, [k]: vs }\<close>: a property that \<^verbatim>\<open>prev\<close> has keeps its place; a new one
  (the facet names are no array indices) comes last.\<close>

fun facetUpdate :: "string \<Rightarrow> string list \<Rightarrow> sidebar_filters \<Rightarrow> sidebar_filters" where
  "facetUpdate k vs [] = [(k, vs)]"
| "facetUpdate k vs ((k', vs') # f) =
     (if k' = k then (k, vs) # f else (k', vs') # facetUpdate k vs f)"

text \<open>\<^verbatim>\<open>removeFilter(filterType, value?)\<close>. A \<open>value\<close> that is \<^verbatim>\<open>undefined\<close> (\<open>None\<close>) or
  empty is falsy. With a \<open>filterType\<close> that is no key of the sidebar filters,
  \<^verbatim>\<open>prev[filterType].filter\<close> throws.\<close>

definition removeFilter :: "string \<Rightarrow> string option \<Rightarrow> page_state \<Rightarrow> js_error + page_state" where
  "removeFilter filterType v s =
     (if filterType = ''keyword'' then Inr (s\<lparr>keyword := ''''\<rparr>)
      else if filterType = ''province''
        then Inr (s\<lparr>selectedProvince := '''',
                    sidebarFilters := facetUpdate ''cities'' [] (sidebarFilters s)\<rparr>)
      else (case v of
              None \<Rightarrow> Inr s
            | Some x \<Rightarrow>
                if x = '''' then Inr s
                else (case facetOf filterType (sidebarFilters s) of
                        None \<Rightarrow> Inl TypeError
                      | Some vs \<Rightarrow>
                          Inr (s\<lparr>sidebarFilters :=
                                 facetUpdate filterType (filter (\<lambda>item. item \<noteq> x) vs)
                                   (sidebarFilters s)\<rparr>))))"

subsection \<open>Events of the page\<close>

text \<open>
  What can happen to the mounted page: the user's actions on the controls the component
  renders, the infinite-scroll hook calling \<^verbatim>\<open>loadMoreJobs\<close>, and a pending
  \<^verbatim>\<open>getJobs\<close> call settling (\<open>Some response\<close> when it resolves, \<open>None\<close> when it
  rejects). The chip buttons call \<^verbatim>\<open>removeFilter('keyword')\<close>,
  \<^verbatim>\<open>removeFilter('province')\<close> and, for every entry of the sidebar filters and every
  value in it, \<^verbatim>\<open>removeFilter(filterType, value)\<close>. The user's actions reach the
  handlers of the page as rendered from the current state.

  The hook calls the \<^verbatim>\<open>loadMoreJobs\<close> of some render. \<open>ScrollNearEnd\<close> is the call of
  the callback of a render that shows the current state: the page has rendered since
  the state last changed. \<open>ScrollNearEndFrom render\<close> is the call of the callback that
  the render \<open>render\<close> created, at any later time.
\<close>

datatype event =
    KeywordInput string
  | ProvinceSelect string
  | SidebarFilterChange sidebar_filters
  | SortChange string
  | MainSearch
  | ClearAll
  | RemoveKeywordChip
  | RemoveProvinceChip
  | RemoveFacetChip string string
  | ScrollNearEnd
  | ScrollNearEndFrom page_state
  | LoadMoreSettled "jobs_response option"
  | SearchSettled "jobs_response option"

text \<open>After \<^verbatim>\<open>removeFilter\<close> the page renders and the filter effect runs. A chip exists
  only for a key of the sidebar filters; an event that names another key stands for no
  chip of the page (\<^verbatim>\<open>removeFilter\<close> would throw there) and leaves the state as it
  is.\<close>

definition afterRemoveFilter :: "page_state \<Rightarrow> js_error + page_state \<Rightarrow> page_state" where
  "afterRemoveFilter s r = (case r of Inl e \<Rightarrow> s | Inr s' \<Rightarrow> filterEffect s')"

text \<open>
  One event, handled to the end of the render it causes: a handler that sets filter
  state is followed by the filter effect. A settling call runs the rest of the function
  that awaits it. That rest reads nothing of the call it awaited, so the call that
  settles is taken to be the oldest one in flight.
\<close>

fun step :: "event \<Rightarrow> page_state \<Rightarrow> page_state" where
  "step (KeywordInput k) s = filterEffect (s\<lparr>keyword := k\<rparr>)"
| "step (ProvinceSelect p) s = filterEffect (s\<lparr>selectedProvince := p\<rparr>)"
| "step (SidebarFilterChange newFilters) s = filterEffect (s\<lparr>sidebarFilters := newFilters\<rparr>)"
| "step (SortChange newSortBy) s = filterEffect (s\<lparr>sortBy := newSortBy\<rparr>)"
| "step MainSearch s = handleFilterSearch s"
| "step ClearAll s = filterEffect (clearAllFilters s)"
| "step RemoveKeywordChip s = afterRemoveFilter s (removeFilter ''keyword'' None s)"
| "step RemoveProvinceChip s = afterRemoveFilter s (removeFilter ''province'' None s)"
| "step (RemoveFacetChip filterType v) s =
     afterRemoveFilter s (removeFilter filterType (Some v) s)"
| "step ScrollNearEnd s = loadMoreJobs s s"
| "step (ScrollNearEndFrom render) s = loadMoreJobs render s"
| "step (LoadMoreSettled r) s =
     (case inflightLoadMore s of
        [] \<Rightarrow> s
      | c # cs \<Rightarrow>
          (case r of
             Some response \<Rightarrow> loadMoreJobs_resolved response (s\<lparr>inflightLoadMore := cs\<rparr>)
           | None \<Rightarrow> loadMoreJobs_rejected (s\<lparr>inflightLoadMore := cs\<rparr>)))"
| "step (SearchSettled r) s =
     (case inflightSearch s of
        [] \<Rightarrow> s
      | c # cs \<Rightarrow>
          (case r of
             Some response \<Rightarrow> handleFilterSearch_resolved response (s\<lparr>inflightSearch := cs\<rparr>)
           | None \<Rightarrow> handleFilterSearch_rejected (s\<lparr>inflightSearch := cs\<rparr>)))"

text \<open>Mounting the component runs the filter effect once on the initial state.\<close>

definition mount :: "job_search_page_props \<Rightarrow> page_state" where
  "mount props = filterEffect (initialState props)"

definition run :: "event list \<Rightarrow> page_state \<Rightarrow> page_state" where
  "run es s = foldl (\<lambda>t e. step e t) s es"

subsection \<open>Kinds of events\<close>


text \<open>The search in flight settles, or a page response with at least one job arrives.\<close>

fun settlesSearchOrAddsJobs :: "event \<Rightarrow> bool" where
  "settlesSearchOrAddsJobs (SearchSettled r) = True"
| "settlesSearchOrAddsJobs (LoadMoreSettled (Some response)) = (resp_jobs response \<noteq> [])"
| "settlesSearchOrAddsJobs e = False"

text \<open>
  The events that cannot set \<open>hasMore\<close>: calls of \<^verbatim>\<open>loadMoreJobs\<close>, rejections, a
  search response that reports no more pages, and a page response that is empty or
  reports no more pages. The events left out are those that may start a search (which
  sets \<open>hasMore\<close> to true) and the responses that carry \<open>hasMore\<close> true.
\<close>

fun leavesHasMore :: "event \<Rightarrow> bool" where
  "leavesHasMore ScrollNearEnd = True"
| "leavesHasMore (ScrollNearEndFrom render) = True"
| "leavesHasMore (LoadMoreSettled None) = True"
| "leavesHasMore (LoadMoreSettled (Some response)) =
     (resp_jobs response = [] \<or> \<not> resp_hasMore response)"
| "leavesHasMore (SearchSettled None) = True"
| "leavesHasMore (SearchSettled (Some response)) = (\<not> resp_hasMore response)"
| "leavesHasMore e = False"

subsection \<open>Invariants\<close>


text \<open>A search is in flight and the list is empty.\<close>

definition searchingOnEmptyList :: "page_state \<Rightarrow> bool" where
  "searchingOnEmptyList s = (searching s \<and> inflightSearch s \<noteq> [] \<and> jobs s = [])"

subsection \<open>Concrete inputs\<close>

definition exampleProps :: job_search_page_props where
  "exampleProps =
     \<lparr>initialJobs = [Job 1],
      initialFilterData = Some [(''DKI Jakarta'', [''Jakarta Selatan''])],
      initialSearchParams = \<lparr>param_search = '''', param_location = '''', param_category = ''''\<rparr>,
      initialTotalJobs = 30\<rparr>"

definition citiesOnly :: "string list \<Rightarrow> sidebar_filters" where
  "citiesOnly cs =
     [(''cities'', cs), (''jobTypes'', []), (''experiences'', []), (''educations'', []),
      (''industries'', []), (''workPolicies'', []), (''categories'', [])]"

definition pageResponse :: "job list \<Rightarrow> int \<Rightarrow> bool \<Rightarrow> jobs_response" where
  "pageResponse js p h =
     \<lparr>resp_jobs = js, resp_currentPage = p, resp_hasMore = h, resp_totalJobs = 30\<rparr>"

definition citiesSnapshot :: "string list \<Rightarrow> filters_snapshot" where
  "citiesSnapshot cs =
     \<lparr>snap_keyword = '''', snap_selectedProvince = '''', snap_sidebarFilters = citiesOnly cs,
      snap_sortBy = ''newest''\<rparr>"

definition citiesCall :: "string \<Rightarrow> string list \<Rightarrow> int \<Rightarrow> get_jobs_call" where
  "citiesCall kw cs p =
     \<lparr>call_filters =
        \<lparr>search = kw, location = '''', filter_sortBy = ''newest'', facets = citiesOnly cs\<rparr>,
      call_page = p, call_pageSize = 24\<rparr>"

text \<open>The sidebar filters with no value selected, the first two keys in the other
  order.\<close>

definition jobTypesFirst :: sidebar_filters where
  "jobTypesFirst =
     [(''jobTypes'', []), (''cities'', []), (''experiences'', []), (''educations'', []),
      (''industries'', []), (''workPolicies'', []), (''categories'', [])]"

section \<open>Properties\<close>

subsection \<open>\<^verbatim>\<open>JSON.stringify\<close> is injective on objects of string arrays\<close>

lemma of_char_lowerHex: "(of_char (lowerHex n) :: nat) = (if n mod 16 < 10 then 48 + n mod 16 else 87 + n mod 16)"
proof -
  have "n mod 16 < 16" by simp
  then have "(48 + n mod 16) mod 256 = 48 + n mod 16" "(87 + n mod 16) mod 256 = 87 + n mod 16"
    by (simp_all only: mod_less add_less_mono)
  then show ?thesis unfolding lowerHex_def by (simp only: of_char_of if_distrib[of of_char] cong: if_cong)
qed

lemma lowerHex_inj: "n < 16 \<Longrightarrow> m < 16 \<Longrightarrow> lowerHex n = lowerHex m \<Longrightarrow> n = m"
proof -
  assume a: "n < 16" "m < 16" "lowerHex n = lowerHex m"
  from a(3) have "(of_char (lowerHex n) :: nat) = of_char (lowerHex m)" by (simp only:)
  with a(1,2) show "n = m" unfolding of_char_lowerHex by (simp only: mod_less split: if_splits)
qed

lemma jsonEscapeChar_cases:
  "(\<exists>x. jsonEscapeChar c = [backslash, x] \<and> x \<noteq> CHR ''u'') \<or>
   ((of_char c :: nat) < 32 \<and> jsonEscapeChar c = [backslash, CHR ''u'', CHR ''0'', CHR ''0'',
              lowerHex (of_char c div 16), lowerHex (of_char c)]) \<or>
   (jsonEscapeChar c = [c] \<and> c \<noteq> backslash \<and> c \<noteq> dquote)"
  unfolding jsonEscapeChar_def by (simp add: backslash_def dquote_def)

lemma of_char_split16: "(of_char c :: nat) div 16 = of_char d div 16 \<Longrightarrow> (of_char c :: nat) mod 16 = of_char d mod 16 \<Longrightarrow> c = d"
proof -
  assume a: "(of_char c :: nat) div 16 = of_char d div 16" "(of_char c :: nat) mod 16 = of_char d mod 16"
  have "(of_char c :: nat) = 16 * (of_char c div 16) + of_char c mod 16" by simp
  also have "\<dots> = 16 * (of_char d div 16) + of_char d mod 16" using a by (simp only:)
  also have "\<dots> = of_char d" by simp
  finally show "c = d" by simp
qed

lemma lowerHex_mod: "lowerHex (n mod 16) = lowerHex n"
  unfolding lowerHex_def by simp

lemma jsonEscapeChar_two_inj:
  assumes "jsonEscapeChar c = [backslash, x]" "jsonEscapeChar d = [backslash, x]"
  shows "c = d"
proof -
  have c: "x = CHR ''b'' \<and> c = CHR 0x08 \<or> x = CHR ''t'' \<and> c = CHR 0x09 \<or> x = CHR ''n'' \<and> c = CHR 0x0A \<or>
     x = CHR ''f'' \<and> c = CHR 0x0C \<or> x = CHR ''r'' \<and> c = CHR 0x0D \<or> x = dquote \<and> c = dquote \<or>
     x = backslash \<and> c = backslash"
    using assms(1) unfolding jsonEscapeChar_def by (simp split: if_splits)
  have d: "x = CHR ''b'' \<and> d = CHR 0x08 \<or> x = CHR ''t'' \<and> d = CHR 0x09 \<or> x = CHR ''n'' \<and> d = CHR 0x0A \<or>
     x = CHR ''f'' \<and> d = CHR 0x0C \<or> x = CHR ''r'' \<and> d = CHR 0x0D \<or> x = dquote \<and> d = dquote \<or>
     x = backslash \<and> d = backslash"
    using assms(2) unfolding jsonEscapeChar_def by (simp split: if_splits)
  from c d show ?thesis unfolding dquote_def backslash_def by auto
qed

lemma jsonEscapeChar_prefix_free:
  assumes "jsonEscapeChar c @ u = jsonEscapeChar d @ v"
  shows "c = d \<and> u = v"
proof -
  note cd = jsonEscapeChar_cases[of c] jsonEscapeChar_cases[of d]
  consider (two) x where "jsonEscapeChar c = [backslash, x]" "x \<noteq> CHR ''u''"
    | (six) "(of_char c :: nat) < 32" "jsonEscapeChar c = [backslash, CHR ''u'', CHR ''0'', CHR ''0'',
              lowerHex (of_char c div 16), lowerHex (of_char c)]"
    | (one) "jsonEscapeChar c = [c]" "c \<noteq> backslash" "c \<noteq> dquote"
    using cd(1) by blast
  then show ?thesis
  proof cases
    case two
    from cd(2) show ?thesis
    proof (elim disjE exE conjE)
      fix y
      assume "jsonEscapeChar d = [backslash, y]"
      with two assms show ?thesis using jsonEscapeChar_two_inj by auto
    qed (use two assms in auto)
  next
    case six
    from cd(2) show ?thesis
    proof (elim disjE exE conjE)
      assume six': "(of_char d :: nat) < 32" "jsonEscapeChar d = [backslash, CHR ''u'', CHR ''0'', CHR ''0'',
            lowerHex (of_char d div 16), lowerHex (of_char d)]"
      with six assms have h: "lowerHex (of_char c div 16) = lowerHex (of_char d div 16)"
        "lowerHex (of_char c mod 16) = lowerHex (of_char d mod 16)" "u = v"
        by (simp_all add: lowerHex_mod)
      have "(of_char c :: nat) div 16 < 16" "(of_char d :: nat) div 16 < 16"
        using six(1) six'(1) by simp_all
      with h(1) have "(of_char c :: nat) div 16 = of_char d div 16" by (rule lowerHex_inj[rotated 2])
      moreover from h(2) have "(of_char c :: nat) mod 16 = of_char d mod 16"
        by (rule lowerHex_inj[rotated 2]) simp_all
      ultimately show ?thesis using h(3) of_char_split16 by blast
    qed (use six assms in auto)
  next
    case one
    from cd(2) show ?thesis
      by (elim disjE exE conjE) (use one assms in auto)
  qed
qed

lemma jsonEscapeChar_hd: "\<exists>a as. jsonEscapeChar c = a # as \<and> a \<noteq> dquote"
  using jsonEscapeChar_cases[of c] unfolding dquote_def backslash_def by auto

lemma escaped_body_inj:
  "concat (map jsonEscapeChar s) @ dquote # u = concat (map jsonEscapeChar t) @ dquote # v
   \<Longrightarrow> s = t \<and> u = v"
proof (induction s arbitrary: t)
  case Nil
  show ?case
  proof (cases t)
    case Nil
    with Nil.prems show ?thesis by simp
  next
    case (Cons d t')
    obtain a as where "jsonEscapeChar d = a # as" "a \<noteq> dquote"
      using jsonEscapeChar_hd by blast
    with Nil.prems Cons show ?thesis by simp
  qed
next
  case (Cons c s)
  show ?case
  proof (cases t)
    case Nil
    obtain a as where "jsonEscapeChar c = a # as" "a \<noteq> dquote"
      using jsonEscapeChar_hd by blast
    with Cons.prems Nil show ?thesis by simp
  next
    case (Cons d t')
    with Cons.prems have
      "jsonEscapeChar c @ (concat (map jsonEscapeChar s) @ dquote # u) =
       jsonEscapeChar d @ (concat (map jsonEscapeChar t') @ dquote # v)"
      by simp
    then have "c = d" and "concat (map jsonEscapeChar s) @ dquote # u =
       concat (map jsonEscapeChar t') @ dquote # v"
      using jsonEscapeChar_prefix_free by blast+
    with Cons.IH Cons show ?thesis by simp
  qed
qed

lemma quoteJSONString_inj:
  "quoteJSONString s @ u = quoteJSONString t @ v \<Longrightarrow> s = t \<and> u = v"
  unfolding quoteJSONString_def using escaped_body_inj[of s u t v] by simp

lemma array_tail_inj:
  "concat (map (\<lambda>y. '','' @ quoteJSONString y) xs) @ CHR '']'' # u =
   concat (map (\<lambda>y. '','' @ quoteJSONString y) ys) @ CHR '']'' # v
   \<Longrightarrow> xs = ys \<and> u = v"
proof (induction xs arbitrary: ys)
  case Nil
  then show ?case by (cases ys) simp_all
next
  case (Cons x xs)
  show ?case
  proof (cases ys)
    case Nil
    with Cons.prems show ?thesis by simp
  next
    case (Cons y ys')
    with Cons.prems have
      "quoteJSONString x @ (concat (map (\<lambda>y. '','' @ quoteJSONString y) xs) @ CHR '']'' # u) =
       quoteJSONString y @ (concat (map (\<lambda>y. '','' @ quoteJSONString y) ys') @ CHR '']'' # v)"
      by simp
    then have "x = y" and "concat (map (\<lambda>y. '','' @ quoteJSONString y) xs) @ CHR '']'' # u =
       concat (map (\<lambda>y. '','' @ quoteJSONString y) ys') @ CHR '']'' # v"
      using quoteJSONString_inj by blast+
    with Cons.IH Cons show ?thesis by simp
  qed
qed

lemma serializeJSONArray_inj:
  assumes "serializeJSONArray xs @ u = serializeJSONArray ys @ v"
  shows "xs = ys \<and> u = v"
proof (cases xs)
  case Nil
  with assms show ?thesis by (cases ys) (simp_all add: quoteJSONString_def dquote_def)
next
  case (Cons x xs')
  show ?thesis
  proof (cases ys)
    case Nil
    with Cons assms show ?thesis by (simp add: quoteJSONString_def dquote_def)
  next
    case (Cons y ys')
    with \<open>xs = x # xs'\<close> assms have
      "quoteJSONString x @ (concat (map (\<lambda>y. '','' @ quoteJSONString y) xs') @ CHR '']'' # u) =
       quoteJSONString y @ (concat (map (\<lambda>y. '','' @ quoteJSONString y) ys') @ CHR '']'' # v)"
      by simp
    then have "x = y" and "concat (map (\<lambda>y. '','' @ quoteJSONString y) xs') @ CHR '']'' # u =
       concat (map (\<lambda>y. '','' @ quoteJSONString y) ys') @ CHR '']'' # v"
      using quoteJSONString_inj by blast+
    with array_tail_inj Cons \<open>xs = x # xs'\<close> show ?thesis by blast
  qed
qed

lemma jsonMember_inj:
  assumes "jsonMember m @ u = jsonMember n @ v"
  shows "m = n \<and> u = v"
proof -
  from assms have
    "quoteJSONString (fst m) @ (CHR '':'' # serializeJSONArray (snd m) @ u) =
     quoteJSONString (fst n) @ (CHR '':'' # serializeJSONArray (snd n) @ v)"
    by (simp add: jsonMember_def)
  then have k: "fst m = fst n"
    and "CHR '':'' # serializeJSONArray (snd m) @ u = CHR '':'' # serializeJSONArray (snd n) @ v"
    using quoteJSONString_inj by blast+
  then have "serializeJSONArray (snd m) @ u = serializeJSONArray (snd n) @ v" by simp
  then have "snd m = snd n" and "u = v" using serializeJSONArray_inj by blast+
  with k show ?thesis by (simp add: prod_eq_iff)
qed

lemma jsonMember_hd: "\<exists>as. jsonMember m = dquote # as"
  by (simp add: jsonMember_def quoteJSONString_def)

lemma object_tail_inj:
  "concat (map (\<lambda>n. '','' @ jsonMember n) ms) @ CHR ''}'' # u =
   concat (map (\<lambda>n. '','' @ jsonMember n) ns) @ CHR ''}'' # v
   \<Longrightarrow> ms = ns \<and> u = v"
proof (induction ms arbitrary: ns)
  case Nil
  then show ?case by (cases ns) simp_all
next
  case (Cons m ms)
  show ?case
  proof (cases ns)
    case Nil
    with Cons.prems show ?thesis by simp
  next
    case (Cons n ns')
    with Cons.prems have
      "jsonMember m @ (concat (map (\<lambda>n. '','' @ jsonMember n) ms) @ CHR ''}'' # u) =
       jsonMember n @ (concat (map (\<lambda>n. '','' @ jsonMember n) ns') @ CHR ''}'' # v)"
      by simp
    then have "m = n" and "concat (map (\<lambda>n. '','' @ jsonMember n) ms) @ CHR ''}'' # u =
       concat (map (\<lambda>n. '','' @ jsonMember n) ns') @ CHR ''}'' # v"
      using jsonMember_inj by blast+
    with Cons.IH Cons show ?thesis by simp
  qed
qed

lemma serializeJSONObject_inj:
  assumes "serializeJSONObject ms = serializeJSONObject ns"
  shows "ms = ns"
proof (cases ms)
  case Nil
  show ?thesis
  proof (cases ns)
    case (Cons n ns')
    obtain as where "jsonMember n = dquote # as" using jsonMember_hd by blast
    with Nil Cons assms show ?thesis by (simp add: dquote_def)
  qed (simp add: Nil)
next
  case (Cons m ms')
  show ?thesis
  proof (cases ns)
    case Nil
    obtain as where "jsonMember m = dquote # as" using jsonMember_hd by blast
    with Nil Cons assms show ?thesis by (simp add: dquote_def)
  next
    case (Cons n ns')
    with \<open>ms = m # ms'\<close> assms have
      "jsonMember m @ (concat (map (\<lambda>n. '','' @ jsonMember n) ms') @ CHR ''}'' # []) =
       jsonMember n @ (concat (map (\<lambda>n. '','' @ jsonMember n) ns') @ CHR ''}'' # [])"
      by simp
    then have "m = n" and "concat (map (\<lambda>n. '','' @ jsonMember n) ms') @ CHR ''}'' # [] =
       concat (map (\<lambda>n. '','' @ jsonMember n) ns') @ CHR ''}'' # []"
      using jsonMember_inj by blast+
    with object_tail_inj Cons \<open>ms = m # ms'\<close> show ?thesis by blast
  qed
qed

lemma stringify_sidebarFilters_inj:
  "stringify_sidebarFilters f = stringify_sidebarFilters g \<Longrightarrow> f = g"
  unfolding stringify_sidebarFilters_def by (rule serializeJSONObject_inj)

lemma filtersChanged_iff: "filtersChanged a b \<longleftrightarrow> a \<noteq> b"
  unfolding filtersChanged_def
  using stringify_sidebarFilters_inj[of "snap_sidebarFilters a" "snap_sidebarFilters b"]
  by (cases a; cases b) auto

subsection \<open>Traces, and the flags against the calls in flight\<close>

lemmas trace_defs =
  run_def mount_def initialState_def initialSidebarFilters_def filterEffect_def
  currentFilters_def handleFilterSearch_def handleFilterSearch_resolved_def
  handleFilterSearch_rejected_def loadMoreJobs_def loadMoreJobs_resolved_def
  loadMoreJobs_rejected_def getJobsFilters_def clearAllFilters_def
  exampleProps_def citiesOnly_def pageResponse_def citiesSnapshot_def citiesCall_def

lemma run_Nil: "run [] s = s"
  by (simp add: run_def)

lemma run_snoc: "run (es @ [e]) s = step e (run es s)"
  by (simp add: run_def)

lemma run_Cons: "run (e # es) s = run es (step e s)"
  by (simp add: run_def)





lemma removeFilter_keeps_fetch_state':
  "case removeFilter t v s of Inl e \<Rightarrow> True | Inr s' \<Rightarrow>
         loadingMore s' = loadingMore s \<and> inflightLoadMore s' = inflightLoadMore s \<and>
         searching s' = searching s \<and> inflightSearch s' = inflightSearch s \<and>
         jobs s' = jobs s \<and> hasMore s' = hasMore s \<and> error s' = error s"
  unfolding removeFilter_def by (simp split: option.split)

lemma removeFilter_keeps_fetch_state:
  assumes "removeFilter t v s = Inr s'"
  shows "loadingMore s' = loadingMore s \<and> inflightLoadMore s' = inflightLoadMore s \<and>
         searching s' = searching s \<and> inflightSearch s' = inflightSearch s \<and>
         jobs s' = jobs s \<and> hasMore s' = hasMore s \<and> error s' = error s"
  using removeFilter_keeps_fetch_state'[where t=t and v=v and s=s] by (simp only: assms sum.case)





lemma scroll_without_hasMore:
  "\<not> hasMore s \<Longrightarrow> run (replicate n ScrollNearEnd) s = s"
  by (induction n) (simp_all add: run_Nil run_Cons loadMoreJobs_def)

lemma hasMore_loadMoreJobs: "hasMore (loadMoreJobs render s) = hasMore s"
  by (simp add: loadMoreJobs_def)

lemma leavesHasMore_step:
  assumes "\<not> hasMore s" "leavesHasMore e"
  shows "\<not> hasMore (step e s)"
proof (cases e)
  case (LoadMoreSettled r)
  with assms show ?thesis
    by (cases r) (auto simp: loadMoreJobs_resolved_def loadMoreJobs_rejected_def split: list.split)
next
  case (SearchSettled r)
  with assms show ?thesis
    by (cases r)
       (auto simp: handleFilterSearch_resolved_def handleFilterSearch_rejected_def split: list.split)
qed (use assms in \<open>simp_all add: hasMore_loadMoreJobs\<close>)

lemma leavesHasMore_run:
  "\<not> hasMore s \<Longrightarrow> list_all leavesHasMore es \<Longrightarrow> \<not> hasMore (run es s)"
  by (induction es arbitrary: s) (simp_all add: run_Nil run_Cons leavesHasMore_step)

subsection \<open>The filter-change comparison\<close>

text \<open>
  C1 (as amended). The comparison of the query synchroniser is structural and sensitive
  to order. The decision is "changed" exactly when the two filter sets differ in the
  keyword, the province or the sort order, or their sidebar filter objects differ in
  their keys, in the order of their keys or in some facet array read as a sequence. Two
  filter sets that hold the same two distinct cities in opposite order are therefore
  reported as changed, and so are two that list equal facet arrays under keys in
  another order. When the current filters equal the last applied ones, the effect
  starts no search and leaves the state as it is. When they differ, the effect starts
  one search if the filter data is loaded and no search is in flight, and none
  otherwise.
\<close>

theorem filtersChanged_is_ordered_equality:
  "(filtersChanged a b \<longleftrightarrow> a \<noteq> b) \<and>
   (x \<noteq> y \<longrightarrow> filtersChanged (citiesSnapshot [x, y]) (citiesSnapshot [y, x])) \<and>
   (k \<noteq> k' \<longrightarrow>
      filtersChanged (a\<lparr>snap_sidebarFilters := (k, vs) # (k', vs') # f\<rparr>)
                     (a\<lparr>snap_sidebarFilters := (k', vs') # (k, vs) # f\<rparr>)) \<and>
   (currentFilters s = filtersRef s \<longrightarrow> filterEffect s = s) \<and>
   (currentFilters s \<noteq> filtersRef s \<longrightarrow>
      inflightSearch (filterEffect s) =
        (if filterData s \<noteq> None \<and> \<not> searching s
         then inflightSearch s @
                [\<lparr>call_filters = getJobsFilters s, call_page = 1, call_pageSize = 24\<rparr>]
         else inflightSearch s))"
proof (intro conjI impI)
  show "filtersChanged a b \<longleftrightarrow> a \<noteq> b" by (rule filtersChanged_iff)
next
  assume "x \<noteq> y"
  then have "citiesSnapshot [x, y] \<noteq> citiesSnapshot [y, x]"
    by (simp add: citiesSnapshot_def citiesOnly_def)
  then show "filtersChanged (citiesSnapshot [x, y]) (citiesSnapshot [y, x])"
    by (simp add: filtersChanged_iff)
next
  assume "k \<noteq> k'"
  then show "filtersChanged (a\<lparr>snap_sidebarFilters := (k, vs) # (k', vs') # f\<rparr>)
                     (a\<lparr>snap_sidebarFilters := (k', vs') # (k, vs) # f\<rparr>)"
    by (cases a) (simp add: filtersChanged_iff)
next
  assume "currentFilters s = filtersRef s"
  then show "filterEffect s = s" by (simp add: filterEffect_def filtersChanged_iff)
next
  assume "currentFilters s \<noteq> filtersRef s"
  then show "inflightSearch (filterEffect s) =
        (if filterData s \<noteq> None \<and> \<not> searching s
         then inflightSearch s @
                [\<lparr>call_filters = getJobsFilters s, call_page = 1, call_pageSize = 24\<rparr>]
         else inflightSearch s)"
    by (simp add: filterEffect_def filtersChanged_iff handleFilterSearch_def getJobsFilters_def)
qed

theorem filtersChanged_is_ordered_equality_witness:
  "\<not> filtersChanged (citiesSnapshot [''A'', ''B'']) (citiesSnapshot [''A'', ''B'']) \<and>
   ''A'' \<noteq> ''B'' \<and>
   filtersChanged (citiesSnapshot [''A'', ''B'']) (citiesSnapshot [''B'', ''A'']) \<and>
   filtersChanged ((citiesSnapshot [])\<lparr>snap_sidebarFilters := jobTypesFirst\<rparr>) (citiesSnapshot []) \<and>
   currentFilters (mount exampleProps) = filtersRef (mount exampleProps) \<and>
   filterEffect (mount exampleProps) = mount exampleProps \<and>
   currentFilters ((mount exampleProps)\<lparr>keyword := ''a''\<rparr>) \<noteq>
     filtersRef ((mount exampleProps)\<lparr>keyword := ''a''\<rparr>) \<and>
   inflightSearch (filterEffect ((mount exampleProps)\<lparr>keyword := ''a''\<rparr>)) =
     [citiesCall ''a'' [] 1]"
proof -
  let ?t = "(mount exampleProps)\<lparr>keyword := ''a''\<rparr>"
  have h: "currentFilters (mount exampleProps) = filtersRef (mount exampleProps)"
    by (simp add: trace_defs filtersChanged_iff)
  have d: "''A'' \<noteq> ''B''" "''jobTypes'' \<noteq> ''cities''" by simp_all
  have j: "(citiesSnapshot [])\<lparr>snap_sidebarFilters := jobTypesFirst\<rparr> =
      (citiesSnapshot [])\<lparr>snap_sidebarFilters :=
        (''jobTypes'', []) # (''cities'', []) #
          [(''experiences'', []), (''educations'', []), (''industries'', []),
           (''workPolicies'', []), (''categories'', [])]\<rparr>"
    "citiesSnapshot [] =
      (citiesSnapshot [])\<lparr>snap_sidebarFilters :=
        (''cities'', []) # (''jobTypes'', []) #
          [(''experiences'', []), (''educations'', []), (''industries'', []),
           (''workPolicies'', []), (''categories'', [])]\<rparr>"
    by (simp_all add: jobTypesFirst_def citiesSnapshot_def citiesOnly_def)
  have g: "currentFilters ?t \<noteq> filtersRef ?t" "filterData ?t \<noteq> None" "\<not> searching ?t"
    "inflightSearch ?t = []" "getJobsFilters ?t = call_filters (citiesCall ''a'' [] 1)"
    by (simp_all add: trace_defs filtersChanged_iff)
  have k: "filtersChanged ((citiesSnapshot [])\<lparr>snap_sidebarFilters := jobTypesFirst\<rparr>)
             (citiesSnapshot [])"
    using filtersChanged_is_ordered_equality
      [of "citiesSnapshot []" "citiesSnapshot []" "''A''" "''B''" "''jobTypes''" "''cities''"
          "[]" "[]" "[(''experiences'', []), (''educations'', []), (''industries'', []),
           (''workPolicies'', []), (''categories'', [])]" ?t] d
    unfolding j[symmetric] by blast
  from filtersChanged_is_ordered_equality
         [of "citiesSnapshot [''A'', ''B'']" "citiesSnapshot [''A'', ''B'']" "''A''" "''B''"
             "''jobTypes''" "''cities''" "[]" "[]" "[]" "mount exampleProps"]
       filtersChanged_is_ordered_equality
         [of "citiesSnapshot []" "citiesSnapshot []" "''A''" "''B''" "''jobTypes''" "''cities''"
             "[]" "[]" "[]" ?t]
       h d g k
  show ?thesis by (simp add: citiesCall_def)
qed

text \<open>
  The claim as stated fails: the cities \<^verbatim>\<open>['A','B']\<close> against \<^verbatim>\<open>['B','A']\<close> count as a
  change, and selecting the same two cities in the other order starts a second search.
\<close>

theorem facet_order_counterexample:
  "map_option set (facetOf ''cities'' (snap_sidebarFilters (citiesSnapshot [''A'', ''B'']))) =
     map_option set (facetOf ''cities'' (snap_sidebarFilters (citiesSnapshot [''B'', ''A'']))) \<and>
   filtersChanged (citiesSnapshot [''A'', ''B'']) (citiesSnapshot [''B'', ''A'']) \<and>
   inflightSearch
     (run [SidebarFilterChange (citiesOnly [''A'', ''B'']),
           SearchSettled (Some (pageResponse [Job 2] 1 False))]
        (mount exampleProps)) = [] \<and>
   inflightSearch
     (run [SidebarFilterChange (citiesOnly [''A'', ''B'']),
           SearchSettled (Some (pageResponse [Job 2] 1 False)),
           SidebarFilterChange (citiesOnly [''B'', ''A''])]
        (mount exampleProps)) = [citiesCall '''' [''B'', ''A''] 1]"
  by code_simp

subsection \<open>At most one page request in flight\<close>




subsection \<open>A change of the filter set\<close>

text \<open>
  C3 (as amended). When the filter effect finds the current filter set different from
  the last applied one (in the keyword, the province, the sort order or any facet
  array), and the filter data is loaded and no search is in flight, then the list of
  jobs is emptied, the page counter is 1 and one first-page search (page 1, page size
  24) with the new filters is started, before any response arrives. When the filter
  data is missing or a search is in flight, the effect starts no search and leaves the
  list and the page counter as they are.
\<close>

theorem filter_change_starts_first_page_search:
  assumes "currentFilters s \<noteq> filtersRef s"
  shows "if filterData s \<noteq> None \<and> \<not> searching s
         then jobs (filterEffect s) = [] \<and>
              currentPage (filterEffect s) = 1 \<and>
              searching (filterEffect s) \<and>
              filtersRef (filterEffect s) = currentFilters s \<and>
              inflightSearch (filterEffect s) =
                inflightSearch s @
                  [\<lparr>call_filters = getJobsFilters s, call_page = 1, call_pageSize = 24\<rparr>]
         else jobs (filterEffect s) = jobs s \<and>
              currentPage (filterEffect s) = currentPage s \<and>
              inflightSearch (filterEffect s) = inflightSearch s"
  using assms
  by (simp add: filterEffect_def filtersChanged_iff handleFilterSearch_def getJobsFilters_def)

theorem filter_change_starts_first_page_search_witness:
  "currentFilters ((mount exampleProps)\<lparr>keyword := ''a''\<rparr>) \<noteq>
     filtersRef ((mount exampleProps)\<lparr>keyword := ''a''\<rparr>) \<and>
   jobs (mount exampleProps) = [Job 1] \<and>
   jobs (step (KeywordInput ''a'') (mount exampleProps)) = [] \<and>
   currentPage (step (KeywordInput ''a'') (mount exampleProps)) = 1 \<and>
   inflightSearch (step (KeywordInput ''a'') (mount exampleProps)) = [citiesCall ''a'' [] 1]"
proof -
  let ?s = "(mount exampleProps)\<lparr>keyword := ''a''\<rparr>"
  have h: "currentFilters ?s \<noteq> filtersRef ?s"
    and g: "filterData ?s \<noteq> None" "\<not> searching ?s" "inflightSearch ?s = []"
      "getJobsFilters ?s = call_filters (citiesCall ''a'' [] 1)"
      "jobs (mount exampleProps) = [Job 1]"
    by (simp_all add: trace_defs filtersChanged_iff)
  from filter_change_starts_first_page_search[OF h] h g
  show ?thesis by (simp add: citiesCall_def)
qed

text \<open>
  The claim as stated fails. A second keystroke while the search for the first one is
  in flight starts no search: the only request is the one for \<^verbatim>\<open>a\<close>, and its response
  is shown under the keyword \<^verbatim>\<open>ab\<close>. Without filter data a change resets nothing.
\<close>

theorem filter_change_during_search_counterexample:
  "inflightSearch (run [KeywordInput ''a''] (mount exampleProps)) = [citiesCall ''a'' [] 1] \<and>
   keyword (run [KeywordInput ''a'', KeywordInput ''ab''] (mount exampleProps)) = ''ab'' \<and>
   inflightSearch (run [KeywordInput ''a'', KeywordInput ''ab''] (mount exampleProps)) =
     [citiesCall ''a'' [] 1] \<and>
   jobs (run [KeywordInput ''a'', KeywordInput ''ab'',
              SearchSettled (Some (pageResponse [Job 7] 1 True))] (mount exampleProps)) = [Job 7] \<and>
   inflightSearch (run [KeywordInput ''a'', KeywordInput ''ab'',
              SearchSettled (Some (pageResponse [Job 7] 1 True))] (mount exampleProps)) = [] \<and>
   jobs (run [KeywordInput ''a''] (mount (exampleProps\<lparr>initialFilterData := None\<rparr>))) = [Job 1] \<and>
   inflightSearch (run [KeywordInput ''a''] (mount (exampleProps\<lparr>initialFilterData := None\<rparr>))) = []"
  by code_simp

subsection \<open>A failed page request\<close>

text \<open>
  C4. When the \<^verbatim>\<open>getJobs\<close> call of \<^verbatim>\<open>loadMoreJobs\<close> rejects, \<open>hasMore\<close> becomes false,
  the list of jobs on display stays as it is and no error message is set (the error
  field keeps its value); \<open>loadingMore\<close> is reset.
\<close>

theorem loadMore_rejection_is_silent:
  "\<not> hasMore (loadMoreJobs_rejected s) \<and>
   jobs (loadMoreJobs_rejected s) = jobs s \<and>
   error (loadMoreJobs_rejected s) = error s \<and>
   \<not> loadingMore (loadMoreJobs_rejected s) \<and>
   (inflightLoadMore s \<noteq> [] \<longrightarrow>
      \<not> hasMore (step (LoadMoreSettled None) s) \<and>
      jobs (step (LoadMoreSettled None) s) = jobs s \<and>
      error (step (LoadMoreSettled None) s) = error s)"
  by (simp add: loadMoreJobs_rejected_def split: list.split)

theorem loadMore_rejection_is_silent_witness:
  "inflightLoadMore (run [ScrollNearEnd] (mount exampleProps)) \<noteq> [] \<and>
   hasMore (run [ScrollNearEnd] (mount exampleProps)) \<and>
   \<not> hasMore (run [ScrollNearEnd, LoadMoreSettled None] (mount exampleProps)) \<and>
   jobs (run [ScrollNearEnd, LoadMoreSettled None] (mount exampleProps)) = [Job 1] \<and>
   error (run [ScrollNearEnd, LoadMoreSettled None] (mount exampleProps)) = None"
proof -
  have ne: "inflightLoadMore (run [ScrollNearEnd] (mount exampleProps)) \<noteq> []"
    and before: "hasMore (run [ScrollNearEnd] (mount exampleProps))"
      "jobs (run [ScrollNearEnd] (mount exampleProps)) = [Job 1]"
      "error (run [ScrollNearEnd] (mount exampleProps)) = None"
    by (simp_all add: trace_defs filtersChanged_iff)
  have snoc: "run [ScrollNearEnd, LoadMoreSettled None] (mount exampleProps) =
      step (LoadMoreSettled None) (run [ScrollNearEnd] (mount exampleProps))"
    by (simp add: run_def)
  from loadMore_rejection_is_silent[of "run [ScrollNearEnd] (mount exampleProps)"] ne before
  show ?thesis unfolding snoc by simp
qed

subsection \<open>Clearing the province\<close>

lemma facetOf_facetUpdate: "facetOf k (facetUpdate k vs f) = Some vs"
  by (induction f) (auto simp: facetOf_def)

lemma removeFilter_province_clears_cities:
  "removeFilter ''province'' v s =
     Inr (s\<lparr>selectedProvince := '''',
            sidebarFilters := facetUpdate ''cities'' [] (sidebarFilters s)\<rparr>) \<and>
   facetOf ''cities'' (facetUpdate ''cities'' [] (sidebarFilters s)) = Some []"
  by (simp add: removeFilter_def facetOf_facetUpdate)

lemma clearAllFilters_clears_cities:
  "selectedProvince (clearAllFilters s) = '''' \<and>
   facetOf ''cities'' (sidebarFilters (clearAllFilters s)) = Some []"
  by (simp add: clearAllFilters_def facetOf_def)

text \<open>
  C5. Clearing the province should also clear the cities. The province chip and
  \<^verbatim>\<open>clearAllFilters\<close> do so; the province select, whose \<^verbatim>\<open>onChange\<close> is
  \<^verbatim>\<open>setSelectedProvince\<close> itself, does not. After choosing the province DKI Jakarta and the
  city Jakarta Selatan, setting the province to the empty value through the select
  leaves the city selected, where the chip would have removed it.
\<close>

theorem province_select_keeps_cities:
  "selectedProvince
     (run [ProvinceSelect ''DKI Jakarta'', SearchSettled (Some (pageResponse [Job 2] 1 False)),
           SidebarFilterChange (citiesOnly [''Jakarta Selatan'']),
           SearchSettled (Some (pageResponse [Job 3] 1 False)),
           ProvinceSelect ''''] (mount exampleProps)) = '''' \<and>
   facetOf ''cities'' (sidebarFilters
     (run [ProvinceSelect ''DKI Jakarta'', SearchSettled (Some (pageResponse [Job 2] 1 False)),
           SidebarFilterChange (citiesOnly [''Jakarta Selatan'']),
           SearchSettled (Some (pageResponse [Job 3] 1 False)),
           ProvinceSelect ''''] (mount exampleProps))) = Some [''Jakarta Selatan''] \<and>
   facetOf ''cities'' (sidebarFilters
     (run [ProvinceSelect ''DKI Jakarta'', SearchSettled (Some (pageResponse [Job 2] 1 False)),
           SidebarFilterChange (citiesOnly [''Jakarta Selatan'']),
           SearchSettled (Some (pageResponse [Job 3] 1 False)),
           RemoveProvinceChip] (mount exampleProps))) = Some []"
  by code_simp

subsection \<open>A failed search\<close>

lemma searchingOnEmptyList_start:
  "\<not> searching s \<Longrightarrow> searchingOnEmptyList (handleFilterSearch s)"
  by (simp add: searchingOnEmptyList_def handleFilterSearch_def)

lemma searchingOnEmptyList_filterEffect:
  "searchingOnEmptyList s \<Longrightarrow> searchingOnEmptyList (filterEffect s)"
  by (simp add: searchingOnEmptyList_def filterEffect_def handleFilterSearch_def)

lemma searchingOnEmptyList_afterRemoveFilter:
  assumes "searchingOnEmptyList s"
  shows "searchingOnEmptyList (afterRemoveFilter s (removeFilter t v s))"
proof (cases "removeFilter t v s")
  case (Inl e)
  with assms show ?thesis by (simp add: afterRemoveFilter_def)
next
  case (Inr s')
  from removeFilter_keeps_fetch_state[OF Inr] assms have "searchingOnEmptyList s'"
    by (simp add: searchingOnEmptyList_def)
  with Inr show ?thesis by (simp add: afterRemoveFilter_def searchingOnEmptyList_filterEffect)
qed

lemma searchingOnEmptyList_filter_fields:
  "searchingOnEmptyList s \<Longrightarrow>
   searchingOnEmptyList (s\<lparr>keyword := k\<rparr>) \<and> searchingOnEmptyList (s\<lparr>selectedProvince := p\<rparr>) \<and>
   searchingOnEmptyList (s\<lparr>sidebarFilters := f\<rparr>) \<and> searchingOnEmptyList (s\<lparr>sortBy := b\<rparr>) \<and>
   searchingOnEmptyList (clearAllFilters s)"
  by (simp add: searchingOnEmptyList_def clearAllFilters_def)

lemma searchingOnEmptyList_step:
  assumes "searchingOnEmptyList s" "\<not> settlesSearchOrAddsJobs e"
  shows "searchingOnEmptyList (step e s)"
proof (cases e)
  case (LoadMoreSettled r)
  with assms show ?thesis
    by (cases r)
       (auto simp: searchingOnEmptyList_def loadMoreJobs_resolved_def loadMoreJobs_rejected_def
         split: list.split)
next
  case (SearchSettled r)
  with assms show ?thesis by simp
next
  case MainSearch
  with assms show ?thesis by (simp add: searchingOnEmptyList_def handleFilterSearch_def)
next
  case ScrollNearEnd
  with assms show ?thesis by (simp add: searchingOnEmptyList_def loadMoreJobs_def)
next
  case (ScrollNearEndFrom render)
  with assms show ?thesis by (simp add: searchingOnEmptyList_def loadMoreJobs_def)
qed (use assms in \<open>simp_all add: searchingOnEmptyList_filterEffect
      searchingOnEmptyList_filter_fields searchingOnEmptyList_afterRemoveFilter\<close>)

lemma searchingOnEmptyList_run:
  "searchingOnEmptyList s \<Longrightarrow> \<not> list_ex settlesSearchOrAddsJobs es
   \<Longrightarrow> searchingOnEmptyList (run es s)"
  by (induction es arbitrary: s) (simp_all add: run_Nil run_Cons searchingOnEmptyList_step)

text \<open>
  C6 (as amended). When the \<^verbatim>\<open>getJobs\<close> call of a search rejects, the error message is
  set and the list of jobs is left as it stands at that moment. The search emptied the
  list when it started, so the list is empty at the failure unless a page response with
  at least one job has arrived since: whatever else happens in between, calls of
  \<^verbatim>\<open>loadMoreJobs\<close> from any render included, adds nothing to the list. A page response
  with at least one job is appended whenever it arrives, during a search too.
\<close>

theorem search_failure_sets_error:
  "error (handleFilterSearch_rejected t) = Some searchFailedMessage \<and>
   jobs (handleFilterSearch_rejected t) = jobs t \<and>
   (resp_jobs response \<noteq> [] \<longrightarrow>
      jobs (loadMoreJobs_resolved response t) = jobs t @ resp_jobs response) \<and>
   (\<not> searching s \<and> \<not> list_ex settlesSearchOrAddsJobs es \<longrightarrow>
      error (step (SearchSettled None) (run es (handleFilterSearch s))) = Some searchFailedMessage \<and>
      jobs (step (SearchSettled None) (run es (handleFilterSearch s))) = [])"
proof (intro conjI impI)
  assume a: "\<not> searching s \<and> \<not> list_ex settlesSearchOrAddsJobs es"
  then have "searchingOnEmptyList (run es (handleFilterSearch s))"
    by (simp add: searchingOnEmptyList_run searchingOnEmptyList_start)
  then show "error (step (SearchSettled None) (run es (handleFilterSearch s))) = Some searchFailedMessage"
    and "jobs (step (SearchSettled None) (run es (handleFilterSearch s))) = []"
    by (simp_all add: searchingOnEmptyList_def handleFilterSearch_rejected_def split: list.split)
qed (simp_all add: handleFilterSearch_rejected_def loadMoreJobs_resolved_def)

theorem search_failure_sets_error_witness:
  "\<not> searching (mount exampleProps) \<and>
   \<not> list_ex settlesSearchOrAddsJobs
       [KeywordInput ''b'', ScrollNearEnd, ScrollNearEndFrom (mount exampleProps),
        LoadMoreSettled None, LoadMoreSettled (Some (pageResponse [] 2 True))] \<and>
   jobs (mount exampleProps) = [Job 1] \<and>
   error (step (SearchSettled None)
     (run [KeywordInput ''b'', ScrollNearEnd, ScrollNearEndFrom (mount exampleProps),
           LoadMoreSettled None, LoadMoreSettled (Some (pageResponse [] 2 True))]
        (handleFilterSearch (mount exampleProps)))) = Some searchFailedMessage \<and>
   jobs (step (SearchSettled None)
     (run [KeywordInput ''b'', ScrollNearEnd, ScrollNearEndFrom (mount exampleProps),
           LoadMoreSettled None, LoadMoreSettled (Some (pageResponse [] 2 True))]
        (handleFilterSearch (mount exampleProps)))) = []"
proof -
  have h: "\<not> searching (mount exampleProps)" "jobs (mount exampleProps) = [Job 1]"
    by (simp_all add: trace_defs filtersChanged_iff)
  have e: "\<not> list_ex settlesSearchOrAddsJobs
       [KeywordInput ''b'', ScrollNearEnd, ScrollNearEndFrom (mount exampleProps),
        LoadMoreSettled None, LoadMoreSettled (Some (pageResponse [] 2 True))]"
    by (simp add: pageResponse_def)
  from search_failure_sets_error
         [of _ _ "mount exampleProps"
             "[KeywordInput ''b'', ScrollNearEnd, ScrollNearEndFrom (mount exampleProps),
               LoadMoreSettled None, LoadMoreSettled (Some (pageResponse [] 2 True))]"]
       h e
  show ?thesis by blast
qed

text \<open>
  The claim as stated fails: a page request that was in flight when the search started
  resolves during the search, and its jobs are on the list when the search fails.
\<close>

theorem search_failure_after_late_page_counterexample:
  "error (run [ScrollNearEnd, KeywordInput ''a'',
               LoadMoreSettled (Some (pageResponse [Job 7] 2 True)), SearchSettled None]
            (mount exampleProps)) = Some searchFailedMessage \<and>
   jobs (run [ScrollNearEnd, KeywordInput ''a'',
              LoadMoreSettled (Some (pageResponse [Job 7] 2 True)), SearchSettled None]
           (mount exampleProps)) = [Job 7]"
  by code_simp

subsection \<open>A page response for an outdated filter set\<close>

text \<open>
  C7 (as amended). The response of a \<^verbatim>\<open>loadMoreJobs\<close> request is applied on arrival
  without any comparison of the filter set the request was made for with the current
  one: whatever the request in flight was, a response with at least one job has its
  jobs appended to the list on display, and the page counter and \<open>hasMore\<close> are taken
  from it. Only a response with no jobs appends nothing.
\<close>

theorem loadMore_response_applied_unconditionally:
  assumes "inflightLoadMore s = c # cs"
  shows "if resp_jobs response \<noteq> []
         then jobs (step (LoadMoreSettled (Some response)) s) = jobs s @ resp_jobs response \<and>
              currentPage (step (LoadMoreSettled (Some response)) s) = resp_currentPage response \<and>
              hasMore (step (LoadMoreSettled (Some response)) s) = resp_hasMore response
         else jobs (step (LoadMoreSettled (Some response)) s) = jobs s"
  using assms by (simp add: loadMoreJobs_resolved_def)

theorem loadMore_response_applied_unconditionally_witness:
  "inflightLoadMore (run [ScrollNearEnd] (mount exampleProps)) = [citiesCall '''' [] 2] \<and>
   jobs (step (LoadMoreSettled (Some (pageResponse [Job 7] 2 True)))
           (run [ScrollNearEnd] (mount exampleProps))) = [Job 1, Job 7] \<and>
   currentPage (step (LoadMoreSettled (Some (pageResponse [Job 7] 2 True)))
           (run [ScrollNearEnd] (mount exampleProps))) = 2"
proof -
  have h: "inflightLoadMore (run [ScrollNearEnd] (mount exampleProps)) = [citiesCall '''' [] 2]"
    and j: "jobs (run [ScrollNearEnd] (mount exampleProps)) = [Job 1]"
    by (simp_all add: trace_defs filtersChanged_iff)
  from loadMore_response_applied_unconditionally
         [OF h, of "pageResponse [Job 7] 2 True"] h j
  show ?thesis by (simp add: pageResponse_def)
qed

text \<open>
  The claim as stated fails: the request was made for the empty keyword, the keyword is
  \<^verbatim>\<open>a\<close> and its search has resolved when the response arrives, and the response's job is
  appended to the results of the new search.
\<close>

theorem stale_loadMore_response_counterexample:
  "map (search \<circ> call_filters)
     (inflightLoadMore (run [ScrollNearEnd, KeywordInput ''a'',
                             SearchSettled (Some (pageResponse [Job 5] 1 True))]
                          (mount exampleProps))) = [''''] \<and>
   keyword (run [ScrollNearEnd, KeywordInput ''a'',
                 SearchSettled (Some (pageResponse [Job 5] 1 True))]
              (mount exampleProps)) = ''a'' \<and>
   jobs (run [ScrollNearEnd, KeywordInput ''a'',
              SearchSettled (Some (pageResponse [Job 5] 1 True))]
           (mount exampleProps)) = [Job 5] \<and>
   jobs (run [ScrollNearEnd, KeywordInput ''a'',
              SearchSettled (Some (pageResponse [Job 5] 1 True)),
              LoadMoreSettled (Some (pageResponse [Job 7] 2 True))]
           (mount exampleProps)) = [Job 5, Job 7]"
  by code_simp

subsection \<open>The end of pagination\<close>




subsection \<open>The URL and the request of a search\<close>

lemma searchUrl_cases:
  "searchUrl k p =
     ''/lowongan-kerja/?'' @
       (if k = '''' then (if p = '''' then '''' else ''location='' @ urlencodedString p)
        else ''search='' @ urlencodedString k @
               (if p = '''' then '''' else ''&location='' @ urlencodedString p))"
  by (simp add: searchUrl_def searchParams_def urlencodedString_def urlencodedByte_def
      urlencodedKeep_def)



subsection \<open>An empty page\<close>

text \<open>
  C10 (as amended). When the response of a \<^verbatim>\<open>loadMoreJobs\<close> request carries no jobs,
  \<open>hasMore\<close> becomes false and the list of jobs and the page counter stay as they are,
  whatever the response says about \<open>hasMore\<close> and the current page. Pagination is then
  stopped: a call of \<^verbatim>\<open>loadMoreJobs\<close> from a render that shows this state starts
  nothing, and \<open>hasMore\<close> stays false through scroll events, rejections and responses
  that report no more pages. The stop is not permanent for the filter set: a search
  that is started again, also for the unchanged filter set, sets \<open>hasMore\<close> to true, as
  does a later response that carries \<open>hasMore\<close> true.
\<close>

theorem empty_page_ends_pagination:
  assumes "resp_jobs response = []"
  shows "\<not> hasMore (loadMoreJobs_resolved response s) \<and>
         jobs (loadMoreJobs_resolved response s) = jobs s \<and>
         currentPage (loadMoreJobs_resolved response s) = currentPage s \<and>
         loadMoreJobs_resolved (response\<lparr>resp_hasMore := True\<rparr>) s =
           loadMoreJobs_resolved (response\<lparr>resp_hasMore := False\<rparr>) s \<and>
         run (replicate n ScrollNearEnd) (loadMoreJobs_resolved response s) =
           loadMoreJobs_resolved response s \<and>
         loadMoreJobs (loadMoreJobs_resolved response s) t = t \<and>
         (\<not> searching u \<longrightarrow>
            hasMore (handleFilterSearch u) \<and>
            currentFilters (handleFilterSearch u) = currentFilters u) \<and>
         hasMore (handleFilterSearch_resolved response' u) = resp_hasMore response' \<and>
         (list_all leavesHasMore es \<longrightarrow>
            \<not> hasMore (run es (loadMoreJobs_resolved response s)) \<and>
            step ScrollNearEnd (run es (loadMoreJobs_resolved response s)) =
              run es (loadMoreJobs_resolved response s))"
proof -
  have h: "\<not> hasMore (loadMoreJobs_resolved response s)"
    using assms by (simp add: loadMoreJobs_resolved_def)
  have c: "loadMoreJobs (loadMoreJobs_resolved response s) t = t"
    using h by (simp add: loadMoreJobs_def)
  have p: "\<not> hasMore (run es (loadMoreJobs_resolved response s)) \<and>
            step ScrollNearEnd (run es (loadMoreJobs_resolved response s)) =
              run es (loadMoreJobs_resolved response s)"
    if "list_all leavesHasMore es"
  proof -
    from h that have "\<not> hasMore (run es (loadMoreJobs_resolved response s))"
      by (rule leavesHasMore_run)
    then show ?thesis by (simp add: loadMoreJobs_def)
  qed
  have b: "jobs (loadMoreJobs_resolved response s) = jobs s \<and>
         currentPage (loadMoreJobs_resolved response s) = currentPage s \<and>
         loadMoreJobs_resolved (response\<lparr>resp_hasMore := True\<rparr>) s =
           loadMoreJobs_resolved (response\<lparr>resp_hasMore := False\<rparr>) s"
    using assms by (simp add: loadMoreJobs_resolved_def)
  have r: "hasMore (handleFilterSearch u) \<and>
            currentFilters (handleFilterSearch u) = currentFilters u" if "\<not> searching u"
    using that by (simp add: handleFilterSearch_def currentFilters_def)
  have q: "hasMore (handleFilterSearch_resolved response' u) = resp_hasMore response'"
    by (simp add: handleFilterSearch_resolved_def)
  from h b c p r q scroll_without_hasMore[OF h] show ?thesis by blast
qed

theorem empty_page_ends_pagination_witness:
  "resp_jobs (pageResponse [] 2 True) = [] \<and>
   resp_hasMore (pageResponse [] 2 True) \<and>
   hasMore (run [ScrollNearEnd] (mount exampleProps)) \<and>
   \<not> hasMore (run [ScrollNearEnd, LoadMoreSettled (Some (pageResponse [] 2 True))]
                (mount exampleProps)) \<and>
   jobs (run [ScrollNearEnd, LoadMoreSettled (Some (pageResponse [] 2 True))]
           (mount exampleProps)) = [Job 1] \<and>
   currentPage (run [ScrollNearEnd, LoadMoreSettled (Some (pageResponse [] 2 True))]
                  (mount exampleProps)) = 1 \<and>
   list_all leavesHasMore [ScrollNearEnd, ScrollNearEndFrom (mount exampleProps)] \<and>
   \<not> hasMore (run [ScrollNearEnd, ScrollNearEndFrom (mount exampleProps)]
     (run [ScrollNearEnd, LoadMoreSettled (Some (pageResponse [] 2 True))]
            (mount exampleProps)))"
proof -
  have e: "resp_jobs (pageResponse [] 2 True) = []" "resp_hasMore (pageResponse [] 2 True)"
    by (simp_all add: pageResponse_def)
  have r: "run [ScrollNearEnd, LoadMoreSettled (Some (pageResponse [] 2 True))] (mount exampleProps) =
      loadMoreJobs_resolved (pageResponse [] 2 True)
        ((run [ScrollNearEnd] (mount exampleProps))\<lparr>inflightLoadMore := []\<rparr>)"
    and b: "hasMore (run [ScrollNearEnd] (mount exampleProps))"
      "jobs (run [ScrollNearEnd] (mount exampleProps)) = [Job 1]"
      "currentPage (run [ScrollNearEnd] (mount exampleProps)) = 1"
    by (simp_all add: trace_defs filtersChanged_iff)
  have l: "list_all leavesHasMore [ScrollNearEnd, ScrollNearEndFrom (mount exampleProps)]"
    by simp
  from empty_page_ends_pagination
         [OF e(1), of "(run [ScrollNearEnd] (mount exampleProps))\<lparr>inflightLoadMore := []\<rparr>" 1
            "mount exampleProps" "mount exampleProps" "pageResponse [] 2 True"
            "[ScrollNearEnd, ScrollNearEndFrom (mount exampleProps)]"]
       e b l
  show ?thesis unfolding r by simp
qed

text \<open>
  The claim as stated fails where it says that an empty page ends pagination for the
  filter set for good: after the empty page, the search button starts the search again
  for the unchanged filter set, its response sets \<open>hasMore\<close> to true, and the next
  scroll event starts the request for page 2.
\<close>

theorem empty_page_then_search_again_counterexample:
  "\<not> hasMore (run [ScrollNearEnd, LoadMoreSettled (Some (pageResponse [] 2 True))]
                (mount exampleProps)) \<and>
   currentFilters
     (run [ScrollNearEnd, LoadMoreSettled (Some (pageResponse [] 2 True)), MainSearch,
           SearchSettled (Some (pageResponse [Job 2] 1 True)), ScrollNearEnd]
        (mount exampleProps)) =
     currentFilters
       (run [ScrollNearEnd, LoadMoreSettled (Some (pageResponse [] 2 True))]
          (mount exampleProps)) \<and>
   hasMore
     (run [ScrollNearEnd, LoadMoreSettled (Some (pageResponse [] 2 True)), MainSearch,
           SearchSettled (Some (pageResponse [Job 2] 1 True))]
        (mount exampleProps)) \<and>
   inflightLoadMore
     (run [ScrollNearEnd, LoadMoreSettled (Some (pageResponse [] 2 True)), MainSearch,
           SearchSettled (Some (pageResponse [Job 2] 1 True)), ScrollNearEnd]
        (mount exampleProps)) = [citiesCall '''' [] 2]"
  by code_simp

end
